theory Spec2Isabelle
  imports Main
begin

section \<open>Strings and regular expressions of the host language\<close>

text \<open>
  The program is TypeScript. A string is a sequence of UTF-16 code units; a code unit
  is modelled as a natural number (below 65536 in every real string; no function below
  depends on that bound). The literals of the source are ASCII and are written with
  \<open>js\<close>.
\<close>

type_synonym jsstring = "nat list"

definition js :: "string \<Rightarrow> jsstring" where
  "js s = map of_char s"

text \<open>
  The character classes of the regular expressions: \<open>\d\<close> is the ten ASCII digits,
  \<open>\s\<close> is the white space and line terminator code units of the language
  (TAB, LF, VT, FF, CR, SP, NBSP, U+1680, U+2000 to U+200A, U+2028, U+2029, U+202F,
  U+205F, U+3000, U+FEFF), \<open>\S\<close> is its complement.
\<close>

definition isDigit :: "nat \<Rightarrow> bool" where
  "isDigit c = (48 \<le> c \<and> c \<le> 57)"

definition isWhiteSpace :: "nat \<Rightarrow> bool" where
  "isWhiteSpace c =
     ((9 \<le> c \<and> c \<le> 13) \<or> c = 32 \<or> c = 160 \<or> c = 5760 \<or> (8192 \<le> c \<and> c \<le> 8202)
      \<or> c = 8232 \<or> c = 8233 \<or> c = 8239 \<or> c = 8287 \<or> c = 12288 \<or> c = 65279)"

text \<open>
  With the flag \<open>i\<close> (and without \<open>u\<close>) two code units match when their canonical
  forms are equal. The canonical form of an ASCII code unit is its upper case; the
  canonical form of a code unit from 128 on is never below 128. Every pattern character
  of this program is ASCII, so the canonical form of the other code units is modelled
  as the code unit itself.
\<close>

definition canonicalize :: "nat \<Rightarrow> nat" where
  "canonicalize c = (if 97 \<le> c \<and> c \<le> 122 then c - 32 else c)"

datatype atom = Chr nat | Digit | Space | NonSpace

datatype regex =
    Fail
  | Empty
  | Atom atom
  | Seq regex regex
  | Alt regex regex
  | Star regex

definition Plus :: "regex \<Rightarrow> regex" where
  "Plus r = Seq r (Star r)"

definition Opt :: "regex \<Rightarrow> regex" where
  "Opt r = Alt r Empty"

text \<open>A literal piece of pattern text, and the alternation \<open>a|b|...\<close> of a list.\<close>

definition lit :: "jsstring \<Rightarrow> regex" where
  "lit s = foldr (\<lambda>c r. Seq (Atom (Chr c)) r) s Empty"

definition alts :: "regex list \<Rightarrow> regex" where
  "alts rs = foldr Alt rs Fail"

text \<open>The first argument of the matcher is the flag \<open>i\<close>.\<close>

fun accepts :: "bool \<Rightarrow> atom \<Rightarrow> nat \<Rightarrow> bool" where
  "accepts ic (Chr p) c = (if ic then canonicalize p = canonicalize c else p = c)"
| "accepts ic Digit c = isDigit c"
| "accepts ic Space c = isWhiteSpace c"
| "accepts ic NonSpace c = (\<not> isWhiteSpace c)"

fun nullable :: "regex \<Rightarrow> bool" where
  "nullable Fail = False"
| "nullable Empty = True"
| "nullable (Atom a) = False"
| "nullable (Seq r s) = (nullable r \<and> nullable s)"
| "nullable (Alt r s) = (nullable r \<or> nullable s)"
| "nullable (Star r) = True"

fun after :: "bool \<Rightarrow> nat \<Rightarrow> regex \<Rightarrow> regex" where
  "after ic c Fail = Fail"
| "after ic c Empty = Fail"
| "after ic c (Atom a) = (if accepts ic a c then Empty else Fail)"
| "after ic c (Seq r s) =
     (if nullable r then Alt (Seq (after ic c r) s) (after ic c s)
      else Seq (after ic c r) s)"
| "after ic c (Alt r s) = Alt (after ic c r) (after ic c s)"
| "after ic c (Star r) = Seq (after ic c r) (Star r)"

text \<open>
  \<open>test\<close> is \<open>RegExp.prototype.test\<close> for a pattern \<open>^r$\<close> without the flags
  \<open>g\<close>, \<open>y\<close> and \<open>m\<close>: the whole string has to match \<open>r\<close>. The patterns of this
  program have neither back references nor look-around, so the answer of the
  backtracking matcher is membership in the language of \<open>r\<close>, which the residuals
  decide.
\<close>

fun test :: "bool \<Rightarrow> regex \<Rightarrow> jsstring \<Rightarrow> bool" where
  "test ic r [] = nullable r"
| "test ic r (c # cs) = test ic (after ic c r) cs"

section \<open>figma-node-types.ts\<close>

definition ALL_FIGMA_NODE_TYPES :: "jsstring list" where
  "ALL_FIGMA_NODE_TYPES = map js
     [''SLICE'', ''FRAME'', ''GROUP'', ''COMPONENT_SET'', ''COMPONENT'', ''INSTANCE'',
      ''BOOLEAN_OPERATION'', ''VECTOR'', ''STAR'', ''LINE'', ''ELLIPSE'', ''POLYGON'',
      ''RECTANGLE'', ''TEXT'', ''STICKY'', ''CONNECTOR'', ''SHAPE_WITH_TEXT'',
      ''CODE_BLOCK'', ''STAMP'', ''WIDGET'', ''EMBED'', ''LINK_UNFURL'', ''MEDIA'',
      ''SECTION'', ''HIGHLIGHT'', ''WASHI_TAPE'', ''TABLE'']"

definition BOOLEAN_OPERATIONS :: "jsstring list" where
  "BOOLEAN_OPERATIONS = map js [''Union'', ''Intersect'', ''Subtract'', ''Exclude'']"

definition isValidFigmaNodeType :: "jsstring \<Rightarrow> bool" where
  "isValidFigmaNodeType ty = (ty \<in> set ALL_FIGMA_NODE_TYPES)"

definition figmaNameRegex :: regex where
  "figmaNameRegex = alts (map lit (ALL_FIGMA_NODE_TYPES @ BOOLEAN_OPERATIONS))"

definition figmaNameWithNumberRegex :: regex where
  "figmaNameWithNumberRegex =
     Seq (Plus (Atom NonSpace)) (Seq (Atom Space) (Plus (Atom Digit)))"

definition isFigmaGeneratedName :: "jsstring \<Rightarrow> bool" where
  "isFigmaGeneratedName name =
     (test True figmaNameRegex name \<or> test False figmaNameWithNumberRegex name)"

section \<open>main.ts: the classifier\<close>

definition PLUGIN_GENERATED_NAMES :: "jsstring list" where
  "PLUGIN_GENERATED_NAMES = map js
     [''group'', ''frame'', ''grid'', ''row'', ''col'', ''video'', ''image'',
      ''boolean-union'', ''boolean-subtract'', ''boolean-intersect'', ''boolean-exclude'']"

definition PLUGIN_NAME_PATTERN :: regex where
  "PLUGIN_NAME_PATTERN =
     Seq (alts (map lit PLUGIN_GENERATED_NAMES))
       (Opt (Seq (lit (js ''-[''))
            (Seq (Plus (Atom Digit))
            (Seq (Opt (Seq (lit (js '','')) (Seq (Star (Atom Space)) (Plus (Atom Digit)))))
                 (lit (js '']''))))))"

text \<open>
  A scene node of the host document. \<open>node_children\<close> is \<open>None\<close> for a node without
  the property \<open>children\<close>. \<open>node_autoRename\<close> is read on TEXT nodes only.
\<close>

datatype SceneNode = SceneNode
  (node_id: jsstring)
  (node_name: jsstring)
  (node_type: jsstring)
  (node_locked: bool)
  (node_visible: bool)
  (node_autoRename: bool)
  (node_children: "SceneNode list option")

definition isFigmaOrPluginGeneratedName :: "SceneNode \<Rightarrow> bool" where
  "isFigmaOrPluginGeneratedName node =
     (let name = node_name node in
      if \<not> isValidFigmaNodeType (node_type node) then False
      else if node_type node = js ''TEXT'' then (node_autoRename node \<or> name = js ''text'')
      else if node_type node = js ''COMPONENT'' \<or> node_type node = js ''COMPONENT_SET''
        then test False figmaNameWithNumberRegex name
      else if isFigmaGeneratedName name then True
      else test False PLUGIN_NAME_PATTERN name)"

section \<open>main.ts: the rename orchestrator\<close>

record AllOptions =
  opt_locked :: bool
  opt_hidden :: bool
  opt_instance :: bool
  showSpacing :: bool
  renameCustomNames :: bool
  usePascalCase :: bool

text \<open>
  The naming strategy manager is a collaborator outside these files. Its only use is
  the call \<open>namingManager.generateName(node, options)\<close>, which either yields the
  proposed name or throws (rejects). The call is handed the live node, through which the
  collaborator can read the subtree of the node and the rest of the document.

  A \<open>namingStrategy\<close> is the collaborator as it answers during one run. In a run every
  node is asked at most once, and nodes are told apart by their identifiers, so what the
  collaborator reads during the call for a node is settled by that node, and its answer
  is a function of the node, as it is at the moment of the call, and of the options.
\<close>

datatype error = Thrown jsstring

type_synonym namingStrategy = "SceneNode \<Rightarrow> AllOptions \<Rightarrow> error + jsstring"

text \<open>The assignment \<open>node.name = newName\<close>: the model returns the node updated.\<close>

fun setName :: "SceneNode \<Rightarrow> jsstring \<Rightarrow> SceneNode" where
  "setName (SceneNode i nm ty lk vs ar ch) v = SceneNode i v ty lk vs ar ch"

fun setChildren :: "SceneNode \<Rightarrow> SceneNode list \<Rightarrow> SceneNode" where
  "setChildren (SceneNode i nm ty lk vs ar ch) cs = SceneNode i nm ty lk vs ar (Some cs)"

text \<open>
  The body of the \<open>try\<close> block of \<open>renameLayer\<close>; \<open>Inl\<close> is an exception leaving
  the block. The result is the returned flag and the node after the call.
\<close>

definition renameLayer_try ::
  "namingStrategy \<Rightarrow> SceneNode \<Rightarrow> AllOptions \<Rightarrow> error + (bool \<times> SceneNode)" where
  "renameLayer_try gen node options =
     (if node_locked node \<and> \<not> opt_locked options then Inr (False, node)
      else if node_visible node = False \<and> \<not> opt_hidden options then Inr (False, node)
      else if node_type node = js ''INSTANCE'' \<and> \<not> opt_instance options then Inr (False, node)
      else if \<not> renameCustomNames options \<and> \<not> isFigmaOrPluginGeneratedName node
        then Inr (False, node)
      else (case gen node options of
              Inl e \<Rightarrow> Inl e
            | Inr newName \<Rightarrow>
                if node_name node \<noteq> newName then Inr (True, setName node newName)
                else Inr (False, node)))"

text \<open>
  \<open>renameLayer\<close> with its \<open>catch\<close>: the error is logged and notified (output that
  no function reads back, left out of the model) and the answer is \<open>false\<close>.
\<close>

definition renameLayer :: "namingStrategy \<Rightarrow> SceneNode \<Rightarrow> AllOptions \<Rightarrow> bool \<times> SceneNode" where
  "renameLayer gen node options =
     (case renameLayer_try gen node options of
        Inl e \<Rightarrow> (False, node)
      | Inr r \<Rightarrow> r)"

text \<open>
  The children of a node are processed after the node's own rename has completed. The
  subtrees handed to \<open>Promise.all\<close> are disjoint and a rename attempt reads and writes
  its own node only, so the interleaving of siblings shows in the result only through
  what the strategy reads of the document, which is part of the strategy of the run; the
  model takes the siblings in order.
\<close>

fun renameNodeAndChildren ::
  "namingStrategy \<Rightarrow> SceneNode \<Rightarrow> AllOptions \<Rightarrow> bool \<times> SceneNode" where
  "renameNodeAndChildren gen (SceneNode i nm ty lk vs ar ch) options =
     (if ty = js ''INSTANCE'' \<and> \<not> opt_instance options
        then (False, SceneNode i nm ty lk vs ar ch)
      else
        (let r = renameLayer gen (SceneNode i nm ty lk vs ar ch) options in
         case ch of
           None \<Rightarrow> r
         | Some cs \<Rightarrow>
             if ty \<noteq> js ''INSTANCE'' \<or> opt_instance options then
               (let childResults = map (\<lambda>child. renameNodeAndChildren gen child options) cs
                in (fst r \<or> list_ex fst childResults,
                    setChildren (snd r) (map snd childResults)))
             else r))"

definition batchSize :: nat where
  "batchSize = 50"

text \<open>
  The loop of \<open>processBatchNodes\<close>: \<open>i\<close> is the loop variable, \<open>hasRenamed\<close> the
  accumulated flag, \<open>nodes\<close> the selection with the nodes processed so far updated.
\<close>

function processBatchLoop ::
  "namingStrategy \<Rightarrow> AllOptions \<Rightarrow> nat \<Rightarrow> bool \<Rightarrow> SceneNode list \<Rightarrow> bool \<times> SceneNode list" where
  "processBatchLoop gen options i hasRenamed nodes =
     (if i < length nodes then
        processBatchLoop gen options (i + batchSize)
          (hasRenamed \<or>
             list_ex fst
               (map (\<lambda>node. renameNodeAndChildren gen node options)
                  (take batchSize (drop i nodes))))
          (take i nodes
             @ map snd
                 (map (\<lambda>node. renameNodeAndChildren gen node options)
                    (take batchSize (drop i nodes)))
             @ drop (i + batchSize) nodes)
      else (hasRenamed, nodes))"
  by pat_completeness auto
termination
  by (relation "measure (\<lambda>(gen, options, i, hasRenamed, nodes). length nodes - i)")
     (auto simp: batchSize_def)

declare processBatchLoop.simps [simp del]

definition processBatchNodes ::
  "namingStrategy \<Rightarrow> SceneNode list \<Rightarrow> AllOptions \<Rightarrow> bool \<times> SceneNode list" where
  "processBatchNodes gen nodes options = processBatchLoop gen options 0 False nodes"

text \<open>
  \<open>renameLayersInSelection\<close>: the selection of the current page is the argument
  \<open>selection\<close>, and the selection after the run is returned beside the flag.
\<close>

definition renameLayersInSelection ::
  "namingStrategy \<Rightarrow> SceneNode list \<Rightarrow> AllOptions \<Rightarrow> bool \<times> SceneNode list" where
  "renameLayersInSelection gen selection options = processBatchNodes gen selection options"

text \<open>
  The collaborator across runs. Between two runs the document differs, so the collaborator
  itself is a function \<open>G\<close> of what it reads of the document (the selection, in the state
  in which it reads it), of the node and of the options. Which state of the selection the
  call for a node reads depends on the interleaving of the calls in flight: the roots of
  a batch are all asked before any name is assigned, a child is asked after its parent
  has been renamed, and a collaborator that suspends may read later still. That state is
  the parameter \<open>obs\<close> of a run, and \<open>observed G obs\<close> is the strategy of the run.
\<close>

type_synonym observingStrategy =
  "SceneNode list \<Rightarrow> SceneNode \<Rightarrow> AllOptions \<Rightarrow> error + jsstring"

definition observed ::
  "observingStrategy \<Rightarrow> (SceneNode \<Rightarrow> SceneNode list) \<Rightarrow> namingStrategy" where
  "observed G obs node options = G (obs node) node options"

text \<open>The settings the plugin starts from when none are saved (the default export).\<close>

definition defaultOptions :: AllOptions where
  "defaultOptions = \<lparr>opt_locked = False, opt_hidden = False, opt_instance = False,
     showSpacing = False, renameCustomNames = False, usePascalCase = False\<rparr>"

section \<open>Specification vocabulary\<close>

text \<open>
  The language of a pattern, as sets of strings, used to relate the matcher to the shapes
  the specification speaks of.
\<close>

definition cat :: "jsstring set \<Rightarrow> jsstring set \<Rightarrow> jsstring set" where
  "cat A B = {u @ v |u v. u \<in> A \<and> v \<in> B}"

inductive_set rep :: "jsstring set \<Rightarrow> jsstring set" for A :: "jsstring set" where
  rep_nil: "[] \<in> rep A"
| rep_app: "u \<in> A \<Longrightarrow> v \<in> rep A \<Longrightarrow> u @ v \<in> rep A"

fun lang :: "bool \<Rightarrow> regex \<Rightarrow> jsstring set" where
  "lang ic Fail = {}"
| "lang ic Empty = {[]}"
| "lang ic (Atom a) = {[c] |c. accepts ic a c}"
| "lang ic (Seq r s) = cat (lang ic r) (lang ic s)"
| "lang ic (Alt r s) = lang ic r \<union> lang ic s"
| "lang ic (Star r) = rep (lang ic r)"

text \<open>Equality of two names up to the case of the ASCII letters.\<close>

definition toLowerAscii :: "nat \<Rightarrow> nat" where
  "toLowerAscii c = (if 65 \<le> c \<and> c \<le> 90 then c + 32 else c)"

definition equalsIgnoreCase :: "jsstring \<Rightarrow> jsstring \<Rightarrow> bool" where
  "equalsIgnoreCase a b = (map toLowerAscii a = map toLowerAscii b)"

text \<open>One or more digits.\<close>

definition digits :: "jsstring \<Rightarrow> bool" where
  "digits d = (d \<noteq> [] \<and> (\<forall>c \<in> set d. isDigit c))"

text \<open>
  The shape "one or more non-space characters, a single space, one or more digits",
  a space being a white space character in the sense of \<open>\s\<close>.
\<close>

definition wordSpaceNumber :: "jsstring \<Rightarrow> bool" where
  "wordSpaceNumber name =
     (\<exists>w s d. name = w @ [s] @ d \<and> w \<noteq> [] \<and> (\<forall>c \<in> set w. \<not> isWhiteSpace c)
        \<and> isWhiteSpace s \<and> digits d)"

text \<open>
  The index suffix in the words of the specification: \<open>-[N]\<close> or \<open>-[N, N]\<close>, the two
  numbers separated by a comma and one space (any one white space character is admitted).
\<close>

definition spec_indexSuffix :: "jsstring \<Rightarrow> bool" where
  "spec_indexSuffix s =
     ((\<exists>a. digits a \<and> s = js ''-['' @ a @ js '']'')
      \<or> (\<exists>a sp b. digits a \<and> isWhiteSpace sp \<and> digits b
            \<and> s = js ''-['' @ a @ js '','' @ [sp] @ b @ js '']''))"

definition spec_pluginName :: "jsstring \<Rightarrow> bool" where
  "spec_pluginName name =
     (\<exists>t \<in> set PLUGIN_GENERATED_NAMES. name = t \<or> (\<exists>s. spec_indexSuffix s \<and> name = t @ s))"

text \<open>
  The index suffix with any run of white space, also none, after the comma:
  \<open>-[N]\<close> or \<open>-[N,\<close> white space \<open>N]\<close>.
\<close>

definition indexSuffix :: "jsstring \<Rightarrow> bool" where
  "indexSuffix s =
     ((\<exists>a. digits a \<and> s = js ''-['' @ a @ js '']'')
      \<or> (\<exists>a ws b. digits a \<and> (\<forall>c \<in> set ws. isWhiteSpace c) \<and> digits b
            \<and> s = js ''-['' @ a @ js '','' @ ws @ b @ js '']''))"

definition pluginName :: "jsstring \<Rightarrow> bool" where
  "pluginName name =
     (\<exists>t \<in> set PLUGIN_GENERATED_NAMES. name = t \<or> (\<exists>s. indexSuffix s \<and> name = t @ s))"


section \<open>Sample strategies and nodes\<close>

text \<open>Three naming strategies: one fixed proposal, one that always throws, one that
  proposes \<open>group\<close> for a node named \<open>frame\<close> and \<open>frame\<close> for every other node.\<close>

definition fixedName :: "jsstring \<Rightarrow> namingStrategy" where
  "fixedName v node options = Inr v"

definition alwaysThrows :: namingStrategy where
  "alwaysThrows node options = Inl (Thrown (js ''no strategy''))"



definition avoidTaken :: observingStrategy where
  "avoidTaken world node options =
     Inr (if list_ex (\<lambda>m. node_name m = js ''frame'') world then js ''group'' else js ''frame'')"

definition rect1 :: SceneNode where
  "rect1 = SceneNode (js ''2:1'') (js ''Rectangle 1'') (js ''RECTANGLE'') False True False None"

definition rect12 :: SceneNode where
  "rect12 = SceneNode (js ''2:3'') (js ''Rectangle 12'') (js ''RECTANGLE'') False True False None"

definition headline :: SceneNode where
  "headline = SceneNode (js ''2:4'') (js ''Headline'') (js ''TEXT'') False True False None"

definition button3 :: SceneNode where
  "button3 = SceneNode (js ''2:5'') (js ''Button 3'') (js ''COMPONENT'') False True False (Some [])"

definition row3 :: SceneNode where
  "row3 = SceneNode (js ''1:1'') (js ''row-[3]'') (js ''FRAME'') False True False None"

definition col25 :: SceneNode where
  "col25 = SceneNode (js ''1:2'') (js ''col-[2,5]'') (js ''FRAME'') False True False None"

definition textRow3 :: SceneNode where
  "textRow3 = SceneNode (js ''1:3'') (js ''Row-[3]'') (js ''TEXT'') False True True None"

definition frameRow3 :: SceneNode where
  "frameRow3 = SceneNode (js ''1:4'') (js ''Row-[3]'') (js ''FRAME'') False True False None"

definition lockedFrame :: SceneNode where
  "lockedFrame = SceneNode (js ''2:0'') (js ''Hero'') (js ''FRAME'') True True False (Some [rect1])"

definition lockedLeaf :: SceneNode where
  "lockedLeaf = SceneNode (js ''2:2'') (js ''Frame'') (js ''FRAME'') True True False None"

definition unknownNode :: SceneNode where
  "unknownNode =
     SceneNode (js ''3:0'') (js ''Frame 1'') (js ''HOLOGRAM'') False True False (Some [rect1])"

definition instanceRoot :: SceneNode where
  "instanceRoot =
     SceneNode (js ''4:0'') (js ''Card'') (js ''INSTANCE'') False True False (Some [rect1])"




definition frame1 :: SceneNode where
  "frame1 = SceneNode (js ''7:1'') (js ''Frame 1'') (js ''FRAME'') False True False None"

definition frame2 :: SceneNode where
  "frame2 = SceneNode (js ''7:2'') (js ''Frame 2'') (js ''FRAME'') False True False None"

definition tenNodes :: "SceneNode list" where
  "tenNodes = map (\<lambda>k. SceneNode [55, 58, 48 + k] (js ''Rectangle 1'') (js ''RECTANGLE'')
                          False True False None) [0, 1, 2, 3, 4, 5, 6, 7, 8, 9]"

section \<open>The matcher decides the language of a pattern\<close>

lemma nullable_lang: "nullable r \<longleftrightarrow> [] \<in> lang ic r"
  by (induction r) (auto simp: cat_def intro: rep.intros)

lemma cat_cons:
  "c # w \<in> cat A B \<longleftrightarrow> ([] \<in> A \<and> c # w \<in> B) \<or> (\<exists>u v. w = u @ v \<and> c # u \<in> A \<and> v \<in> B)"
  unfolding cat_def
  by (auto simp: Cons_eq_append_conv) 

lemma rep_cons_elim:
  assumes "x \<in> rep A" "x = c # w"
  shows "\<exists>u v. w = u @ v \<and> c # u \<in> A \<and> v \<in> rep A"
  using assms
proof (induction rule: rep.induct)
  case rep_nil
  then show ?case by simp
next
  case (rep_app u v)
  show ?case
  proof (cases u)
    case Nil
    with rep_app show ?thesis by simp
  next
    case (Cons d u')
    with rep_app.prems have "d = c" "w = u' @ v" by simp_all
    with Cons rep_app.hyps show ?thesis by blast
  qed
qed

lemma rep_cons:
  "c # w \<in> rep A \<longleftrightarrow> (\<exists>u v. w = u @ v \<and> c # u \<in> A \<and> v \<in> rep A)"
proof
  assume "c # w \<in> rep A"
  then show "\<exists>u v. w = u @ v \<and> c # u \<in> A \<and> v \<in> rep A"
    using rep_cons_elim by blast
next
  assume "\<exists>u v. w = u @ v \<and> c # u \<in> A \<and> v \<in> rep A"
  then obtain u v where "w = u @ v" "c # u \<in> A" "v \<in> rep A" by blast
  then show "c # w \<in> rep A"
    using rep_app [of "c # u" A v] by simp
qed

lemma after_lang: "w \<in> lang ic (after ic c r) \<longleftrightarrow> c # w \<in> lang ic r"
proof (induction r arbitrary: w)
  case (Seq r s)
  then show ?case
    by (auto simp: cat_cons nullable_lang [of r ic]) (auto simp: cat_def)
next
  case (Star r)
  then show ?case
    by (auto simp: rep_cons) (auto simp: cat_def)
qed auto

lemma test_lang: "test ic r s \<longleftrightarrow> s \<in> lang ic r"
  by (induction s arbitrary: r) (simp_all add: nullable_lang [of _ ic] after_lang)


lemma lang_lit_exact: "lang False (lit s) = {s}"
  by (induction s) (auto simp: lit_def cat_def)

lemma cat_atom: "cat {[c] |c. P c} B = {c # v |c v. P c \<and> v \<in> B}"
  unfolding cat_def
proof (intro set_eqI iffI)
  fix x assume "x \<in> {u @ v |u v. u \<in> {[c] |c. P c} \<and> v \<in> B}"
  then obtain c v where "x = [c] @ v" "P c" "v \<in> B" by blast
  then show "x \<in> {c # v |c v. P c \<and> v \<in> B}" by simp
next
  fix x assume "x \<in> {c # v |c v. P c \<and> v \<in> B}"
  then obtain c v where x: "x = c # v" "P c" "v \<in> B" by blast
  then have "x = [c] @ v" "[c] \<in> {[c] |c. P c}" by auto
  with x(3) show "x \<in> {u @ v |u v. u \<in> {[c] |c. P c} \<and> v \<in> B}" by blast
qed

lemma lang_lit_nocase: "lang True (lit s) = {t. map canonicalize t = map canonicalize s}"
proof (induction s)
  case Nil
  then show ?case by (simp add: lit_def)
next
  case (Cons p s)
  have "lang True (lit (p # s)) = cat {[c] |c. canonicalize p = canonicalize c} (lang True (lit s))"
    by (simp add: lit_def)
  also have "\<dots> = {t. map canonicalize t = map canonicalize (p # s)}"
    unfolding Cons.IH cat_atom by (auto simp: map_eq_Cons_conv)
  finally show ?case .
qed

lemma lang_alts: "lang ic (alts rs) = (\<Union>r \<in> set rs. lang ic r)"
  by (induction rs) (simp_all add: alts_def)

lemma rep_atom: "rep {[c] |c. P c} = {w. \<forall>c \<in> set w. P c}"
proof (intro set_eqI iffI)
  fix w assume "w \<in> rep {[c] |c. P c}"
  then show "w \<in> {w. \<forall>c \<in> set w. P c}"
    by (induction rule: rep.induct) auto
next
  fix w assume "w \<in> {w. \<forall>c \<in> set w. P c}"
  then show "w \<in> rep {[c] |c. P c}"
  proof (induction w)
    case Nil
    then show ?case by (simp add: rep_nil)
  next
    case (Cons c w)
    then have "[c] \<in> {[c] |c. P c}" "w \<in> rep {[c] |c. P c}" by auto
    then show ?case using rep_app [of "[c]" _ w] by simp
  qed
qed

lemma lang_Star_atom: "lang ic (Star (Atom a)) = {w. \<forall>c \<in> set w. accepts ic a c}"
  by (simp add: rep_atom)

lemma lang_Plus_atom: "lang ic (Plus (Atom a)) = {w. w \<noteq> [] \<and> (\<forall>c \<in> set w. accepts ic a c)}"
  unfolding Plus_def lang.simps(4) lang_Star_atom
  by (auto simp: cat_def) (metis append_Cons append_Nil list.exhaust list.set_intros(1) list.set_intros(2))

lemma lang_Opt: "lang ic (Opt r) = insert [] (lang ic r)"
  by (auto simp: Opt_def)

lemma canonicalize_toLowerAscii:
  "canonicalize a = canonicalize b \<longleftrightarrow> toLowerAscii a = toLowerAscii b"
  by (auto simp: canonicalize_def toLowerAscii_def split: if_splits)

lemma map_canonicalize_toLowerAscii:
  "map canonicalize s = map canonicalize t \<longleftrightarrow> map toLowerAscii s = map toLowerAscii t"
proof (induction s arbitrary: t)
  case Nil
  then show ?case by simp
next
  case (Cons a s)
  then show ?case by (cases t) (simp_all add: canonicalize_toLowerAscii)
qed

lemma test_alts_lit_nocase:
  "test True (alts (map lit ls)) name \<longleftrightarrow> (\<exists>l \<in> set ls. equalsIgnoreCase name l)"
  by (simp add: test_lang lang_alts lang_lit_nocase equalsIgnoreCase_def
      map_canonicalize_toLowerAscii)

lemma test_alts_lit_exact:
  "test False (alts (map lit ls)) name \<longleftrightarrow> name \<in> set ls"
  by (auto simp add: test_lang lang_alts lang_lit_exact)

lemma test_figmaNameRegex:
  "test True figmaNameRegex name \<longleftrightarrow>
     (\<exists>l \<in> set (ALL_FIGMA_NODE_TYPES @ BOOLEAN_OPERATIONS). equalsIgnoreCase name l)"
  unfolding figmaNameRegex_def by (rule test_alts_lit_nocase)

lemma lang_numberShape:
  "lang False figmaNameWithNumberRegex =
     {w @ [s] @ d |w s d. w \<noteq> [] \<and> (\<forall>c \<in> set w. \<not> isWhiteSpace c) \<and> isWhiteSpace s \<and> digits d}"
proof -
  have tail: "lang False (Seq (Atom Space) (Plus (Atom Digit))) =
      {s # d |s d. isWhiteSpace s \<and> digits d}"
    unfolding lang.simps(3,4) lang_Plus_atom cat_atom by (auto simp: digits_def)
  show ?thesis
    unfolding figmaNameWithNumberRegex_def lang.simps(4) [of False "Plus (Atom NonSpace)"] tail
      lang_Plus_atom cat_def
    by auto
qed

lemma test_figmaNameWithNumberRegex:
  "test False figmaNameWithNumberRegex name \<longleftrightarrow> wordSpaceNumber name"
  unfolding test_lang lang_numberShape wordSpaceNumber_def by auto


lemma lang_alts_lit_exact: "lang False (alts (map lit ls)) = set ls"
  by (auto simp: lang_alts lang_lit_exact)

lemma cat_iff: "x \<in> cat A B \<longleftrightarrow> (\<exists>u v. x = u @ v \<and> u \<in> A \<and> v \<in> B)"
  unfolding cat_def by blast

lemma lang_digits: "lang False (Plus (Atom Digit)) = {d. digits d}"
  by (auto simp: lang_Plus_atom digits_def)

lemma lang_spaces: "lang False (Star (Atom Space)) = {ws. \<forall>c \<in> set ws. isWhiteSpace c}"
  unfolding lang_Star_atom by simp

lemma lang_indexSuffix:
  "s \<in> lang False (Seq (lit (js ''-[''))
            (Seq (Plus (Atom Digit))
            (Seq (Opt (Seq (lit (js '','')) (Seq (Star (Atom Space)) (Plus (Atom Digit)))))
                 (lit (js '']''))))) \<longleftrightarrow> indexSuffix s"
  (is "s \<in> lang False ?r \<longleftrightarrow> _")
proof -
  have second: "x \<in> lang False (Seq (lit (js '','')) (Seq (Star (Atom Space)) (Plus (Atom Digit))))
      \<longleftrightarrow> (\<exists>ws b. (\<forall>c \<in> set ws. isWhiteSpace c) \<and> digits b \<and> x = js '','' @ ws @ b)" for x
    unfolding lang.simps(4) lang_lit_exact lang_digits lang_spaces cat_iff by blast
  have inner: "x \<in> lang False (Seq (Opt (Seq (lit (js '','')) (Seq (Star (Atom Space)) (Plus (Atom Digit)))))
                 (lit (js '']''))) \<longleftrightarrow>
      (x = js '']'' \<or> (\<exists>ws b. (\<forall>c \<in> set ws. isWhiteSpace c) \<and> digits b \<and> x = js '','' @ ws @ b @ js '']''))"
    (is "?L \<longleftrightarrow> ?R") for x
  proof
    assume ?L
    then obtain u v where x: "x = u @ v" and u: "u = [] \<or> u \<in> lang False (Seq (lit (js '','')) (Seq (Star (Atom Space)) (Plus (Atom Digit))))"
      and v: "v = js '']''"
      unfolding lang.simps(4) [of False "Opt _"] lang_Opt lang_lit_exact cat_iff by blast
    from u show ?R
    proof
      assume "u = []"
      with x v show ?R by simp
    next
      assume "u \<in> lang False (Seq (lit (js '','')) (Seq (Star (Atom Space)) (Plus (Atom Digit))))"
      then obtain ws b where "\<forall>c \<in> set ws. isWhiteSpace c" "digits b" "u = js '','' @ ws @ b"
        using second by blast
      with x v show ?R by auto
    qed
  next
    assume ?R
    then show ?L
    proof
      assume "x = js '']''"
      then have "x = [] @ js '']''" by simp
      then show ?L
        unfolding lang.simps(4) [of False "Opt _"] lang_Opt lang_lit_exact cat_iff by blast
    next
      assume "\<exists>ws b. (\<forall>c \<in> set ws. isWhiteSpace c) \<and> digits b \<and> x = js '','' @ ws @ b @ js '']''"
      then obtain ws b where h: "\<forall>c \<in> set ws. isWhiteSpace c" "digits b"
        and x: "x = js '','' @ ws @ b @ js '']''" by blast
      from h have "js '','' @ ws @ b \<in> lang False (Seq (lit (js '','')) (Seq (Star (Atom Space)) (Plus (Atom Digit))))"
        using second by blast
      moreover from x have "x = (js '','' @ ws @ b) @ js '']''" by simp
      ultimately show ?L
        unfolding lang.simps(4) [of False "Opt _"] lang_Opt lang_lit_exact cat_iff by blast
    qed
  qed
  have "s \<in> lang False ?r \<longleftrightarrow>
      (\<exists>a t. digits a \<and> s = js ''-['' @ a @ t \<and>
         (t = js '']'' \<or> (\<exists>ws b. (\<forall>c \<in> set ws. isWhiteSpace c) \<and> digits b \<and> t = js '','' @ ws @ b @ js '']'')))"
    unfolding lang.simps(4) [of False "lit (js ''-['')"] lang.simps(4) [of False "Plus (Atom Digit)"]
      lang_lit_exact lang_digits cat_iff
    using inner by blast
  also have "\<dots> \<longleftrightarrow> indexSuffix s"
    unfolding indexSuffix_def by blast
  finally show ?thesis .
qed

lemma test_PLUGIN_NAME_PATTERN:
  "test False PLUGIN_NAME_PATTERN name \<longleftrightarrow> pluginName name"
proof -
  have "test False PLUGIN_NAME_PATTERN name \<longleftrightarrow>
      (\<exists>t s. name = t @ s \<and> t \<in> set PLUGIN_GENERATED_NAMES \<and> (s = [] \<or> indexSuffix s))"
    unfolding test_lang PLUGIN_NAME_PATTERN_def lang.simps(4) [of False "alts _"] lang_Opt
      lang_alts_lit_exact cat_iff insert_iff lang_indexSuffix ..
  also have "\<dots> \<longleftrightarrow> pluginName name"
    unfolding pluginName_def by (metis append_Nil2)
  finally show ?thesis .
qed

section \<open>The classifier\<close>

lemmas pattern_defs =
  isFigmaGeneratedName_def figmaNameRegex_def figmaNameWithNumberRegex_def
  PLUGIN_NAME_PATTERN_def PLUGIN_GENERATED_NAMES_def
  ALL_FIGMA_NODE_TYPES_def BOOLEAN_OPERATIONS_def js_def lit_def alts_def Plus_def Opt_def
  isDigit_def isWhiteSpace_def canonicalize_def

lemmas classifier_defs =
  isFigmaOrPluginGeneratedName_def isValidFigmaNodeType_def pattern_defs

lemma isFigmaGeneratedName_iff:
  "isFigmaGeneratedName name \<longleftrightarrow>
     (\<exists>l \<in> set (ALL_FIGMA_NODE_TYPES @ BOOLEAN_OPERATIONS). equalsIgnoreCase name l)
     \<or> wordSpaceNumber name"
  unfolding isFigmaGeneratedName_def test_figmaNameRegex test_figmaNameWithNumberRegex ..

lemma classifier_generic:
  assumes "isValidFigmaNodeType (node_type n)"
    and "node_type n \<noteq> js ''TEXT''"
    and "node_type n \<noteq> js ''COMPONENT''"
    and "node_type n \<noteq> js ''COMPONENT_SET''"
  shows "isFigmaOrPluginGeneratedName n \<longleftrightarrow>
     isFigmaGeneratedName (node_name n) \<or> test False PLUGIN_NAME_PATTERN (node_name n)"
  using assms by (auto simp add: isFigmaOrPluginGeneratedName_def Let_def)

lemma host_Frame: "isFigmaGeneratedName (js ''Frame'')"
  by (simp add: pattern_defs)
lemma host_FRAME: "isFigmaGeneratedName (js ''FRAME'')"
  by (simp add: pattern_defs)
lemma host_frame: "isFigmaGeneratedName (js ''frame'')"
  by (simp add: pattern_defs)
lemma host_Rectangle_12: "isFigmaGeneratedName (js ''Rectangle 12'')"
  by (simp add: pattern_defs)
lemma host_My_Button: "\<not> isFigmaGeneratedName (js ''My Button'')"
  by (simp add: pattern_defs)
lemma host_Icon: "\<not> isFigmaGeneratedName (js ''Icon'')"
  by (simp add: pattern_defs)
lemma plugin_My_Button: "\<not> test False PLUGIN_NAME_PATTERN (js ''My Button'')"
  by (simp add: pattern_defs)
lemma plugin_Icon: "\<not> test False PLUGIN_NAME_PATTERN (js ''Icon'')"
  by (simp add: pattern_defs)

lemma literal_counts:
  "length ALL_FIGMA_NODE_TYPES = 27" "distinct ALL_FIGMA_NODE_TYPES"
  "length BOOLEAN_OPERATIONS = 4"
  by (simp_all add: ALL_FIGMA_NODE_TYPES_def BOOLEAN_OPERATIONS_def js_def)

text \<open>
  Claim C1. For a node of a valid kind other than TEXT, COMPONENT and COMPONENT_SET the
  classifier answers true when the name equals, up to case, one of the 27 kind literals
  or one of the 4 boolean operation labels, and when the name is one or more non-space
  characters, one space and one or more digits. The names \<open>Frame\<close>, \<open>FRAME\<close>,
  \<open>frame\<close> and \<open>Rectangle 12\<close> are generated; \<open>My Button\<close> and \<open>Icon\<close> are not.
\<close>

theorem generic_host_name_generated:
  assumes "isValidFigmaNodeType (node_type n)"
    and "node_type n \<noteq> js ''TEXT''"
    and "node_type n \<noteq> js ''COMPONENT''"
    and "node_type n \<noteq> js ''COMPONENT_SET''"
  shows "((\<exists>l \<in> set (ALL_FIGMA_NODE_TYPES @ BOOLEAN_OPERATIONS). equalsIgnoreCase (node_name n) l)
           \<or> wordSpaceNumber (node_name n)
          \<longrightarrow> isFigmaOrPluginGeneratedName n)
       \<and> (node_name n \<in> {js ''Frame'', js ''FRAME'', js ''frame'', js ''Rectangle 12''}
          \<longrightarrow> isFigmaOrPluginGeneratedName n)
       \<and> (node_name n \<in> {js ''My Button'', js ''Icon''}
          \<longrightarrow> \<not> isFigmaOrPluginGeneratedName n)
       \<and> length ALL_FIGMA_NODE_TYPES = 27 \<and> distinct ALL_FIGMA_NODE_TYPES
       \<and> length BOOLEAN_OPERATIONS = 4"
  unfolding classifier_generic [OF assms]
  using isFigmaGeneratedName_iff [of "node_name n"] host_Frame host_FRAME host_frame
    host_Rectangle_12 host_My_Button host_Icon plugin_My_Button plugin_Icon literal_counts
  by auto

theorem generic_host_name_generated_witness:
  "isValidFigmaNodeType (node_type rect12) \<and> node_type rect12 \<noteq> js ''TEXT''
   \<and> node_type rect12 \<noteq> js ''COMPONENT'' \<and> node_type rect12 \<noteq> js ''COMPONENT_SET''
   \<and> node_name rect12 = js ''Rectangle 12''
   \<and> isFigmaOrPluginGeneratedName rect12"
proof -
  have h1: "isValidFigmaNodeType (node_type rect12)"
    by (simp add: rect12_def isValidFigmaNodeType_def ALL_FIGMA_NODE_TYPES_def js_def)
  have h2: "node_type rect12 \<noteq> js ''TEXT''" by (simp add: rect12_def js_def)
  have h3: "node_type rect12 \<noteq> js ''COMPONENT''" by (simp add: rect12_def js_def)
  have h4: "node_type rect12 \<noteq> js ''COMPONENT_SET''" by (simp add: rect12_def js_def)
  have nm: "node_name rect12 = js ''Rectangle 12''" by (simp add: rect12_def)
  from generic_host_name_generated [OF h1 h2 h3 h4] nm
  have "isFigmaOrPluginGeneratedName rect12" by blast
  with h1 h2 h3 h4 nm show ?thesis by simp
qed

lemma valid_TEXT: "isValidFigmaNodeType (js ''TEXT'')"
  by (simp add: isValidFigmaNodeType_def ALL_FIGMA_NODE_TYPES_def js_def)

lemma valid_COMPONENT: "isValidFigmaNodeType (js ''COMPONENT'')"
  by (simp add: isValidFigmaNodeType_def ALL_FIGMA_NODE_TYPES_def js_def)

lemma valid_COMPONENT_SET: "isValidFigmaNodeType (js ''COMPONENT_SET'')"
  by (simp add: isValidFigmaNodeType_def ALL_FIGMA_NODE_TYPES_def js_def)

lemma kinds_distinct:
  "js ''COMPONENT'' \<noteq> js ''TEXT''" "js ''COMPONENT_SET'' \<noteq> js ''TEXT''"
  by (simp_all add: js_def)

text \<open>
  Claim C7. For a TEXT node the classifier answers true exactly when the flag
  \<open>autoRename\<close> is set or the name is the literal \<open>text\<close>; a TEXT node named
  \<open>Headline\<close> without the flag is not generated.
\<close>

theorem text_node_generated_iff:
  assumes "node_type n = js ''TEXT''"
  shows "(isFigmaOrPluginGeneratedName n \<longleftrightarrow> node_autoRename n \<or> node_name n = js ''text'')
       \<and> (node_name n = js ''Headline'' \<and> \<not> node_autoRename n
            \<longrightarrow> \<not> isFigmaOrPluginGeneratedName n)"
proof -
  have "isFigmaOrPluginGeneratedName n \<longleftrightarrow> node_autoRename n \<or> node_name n = js ''text''"
    using assms valid_TEXT by (simp add: isFigmaOrPluginGeneratedName_def)
  moreover have "js ''Headline'' \<noteq> js ''text''" by (simp add: js_def)
  ultimately show ?thesis by auto
qed

theorem text_node_generated_iff_witness:
  "node_type headline = js ''TEXT'' \<and> node_name headline = js ''Headline''
   \<and> \<not> node_autoRename headline \<and> \<not> isFigmaOrPluginGeneratedName headline"
proof -
  have h: "node_type headline = js ''TEXT''" by (simp add: headline_def)
  have nm: "node_name headline = js ''Headline''" "\<not> node_autoRename headline"
    by (simp_all add: headline_def)
  from text_node_generated_iff [OF h] nm
  have "\<not> isFigmaOrPluginGeneratedName headline" by blast
  with h nm show ?thesis by simp
qed

lemma classifier_component:
  assumes "node_type n = js ''COMPONENT'' \<or> node_type n = js ''COMPONENT_SET''"
  shows "isFigmaOrPluginGeneratedName n \<longleftrightarrow> test False figmaNameWithNumberRegex (node_name n)"
  using assms valid_COMPONENT valid_COMPONENT_SET kinds_distinct
  by (auto simp add: isFigmaOrPluginGeneratedName_def)

text \<open>
  Claim C8. For a COMPONENT or COMPONENT_SET node the classifier answers true exactly when
  the name is one or more non-space characters, one space and one or more digits, as
  \<open>Button 3\<close> is. Nothing else is consulted for these kinds: a component named
  \<open>Frame\<close> or \<open>row-[3]\<close> is not generated.
\<close>

theorem component_generated_iff_word_number:
  assumes "node_type n = js ''COMPONENT'' \<or> node_type n = js ''COMPONENT_SET''"
  shows "(isFigmaOrPluginGeneratedName n \<longleftrightarrow> wordSpaceNumber (node_name n))
       \<and> (node_name n = js ''Button 3'' \<longrightarrow> isFigmaOrPluginGeneratedName n)
       \<and> (node_name n \<in> {js ''Frame'', js ''row-[3]''} \<longrightarrow> \<not> isFigmaOrPluginGeneratedName n)"
proof -
  have "test False figmaNameWithNumberRegex (js ''Button 3'')"
    by (simp add: pattern_defs)
  moreover have "\<not> test False figmaNameWithNumberRegex (js ''Frame'')"
    by (simp add: pattern_defs)
  moreover have "\<not> test False figmaNameWithNumberRegex (js ''row-[3]'')"
    by (simp add: pattern_defs)
  ultimately show ?thesis
    unfolding classifier_component [OF assms]
    using test_figmaNameWithNumberRegex [of "node_name n"] by auto
qed

theorem component_generated_iff_word_number_witness:
  "node_type button3 = js ''COMPONENT'' \<and> node_name button3 = js ''Button 3''
   \<and> isFigmaOrPluginGeneratedName button3 \<and> wordSpaceNumber (node_name button3)"
proof -
  have h: "node_type button3 = js ''COMPONENT'' \<or> node_type button3 = js ''COMPONENT_SET''"
    by (simp add: button3_def)
  have nm: "node_name button3 = js ''Button 3''" by (simp add: button3_def)
  note t = component_generated_iff_word_number [OF h]
  have a: "isFigmaOrPluginGeneratedName button3" using t nm by blast
  have "wordSpaceNumber (node_name button3)" using t a by blast
  with a have "isFigmaOrPluginGeneratedName button3 \<and> wordSpaceNumber (node_name button3)" ..
  with nm show ?thesis by (simp add: button3_def)
qed

text \<open>
  Claim C9, as amended. For a node of a valid kind other than TEXT, COMPONENT and
  COMPONENT_SET whose name fails the generic host-name check, the classifier answers true
  exactly when the name is one of the eleven plugin tokens, optionally followed by an
  index suffix \<open>-[N]\<close> or \<open>-[N,\<close> white space \<open>N]\<close> with any run of white space,
  also none, after the comma. The names \<open>row-[3]\<close>, \<open>col-[2, 5]\<close> and
  \<open>boolean-union\<close> are generated; \<open>row-3\<close> is not.
\<close>

theorem plugin_name_generated_iff:
  assumes "isValidFigmaNodeType (node_type n)"
    and "node_type n \<noteq> js ''TEXT''"
    and "node_type n \<noteq> js ''COMPONENT''"
    and "node_type n \<noteq> js ''COMPONENT_SET''"
    and "\<not> isFigmaGeneratedName (node_name n)"
  shows "(isFigmaOrPluginGeneratedName n \<longleftrightarrow> pluginName (node_name n))
       \<and> (node_name n \<in> {js ''row-[3]'', js ''col-[2, 5]'', js ''boolean-union''}
            \<longrightarrow> isFigmaOrPluginGeneratedName n)
       \<and> (node_name n = js ''row-3'' \<longrightarrow> \<not> isFigmaOrPluginGeneratedName n)"
proof -
  have "test False PLUGIN_NAME_PATTERN (js ''row-[3]'')"
    by (simp add: pattern_defs)
  moreover have "test False PLUGIN_NAME_PATTERN (js ''col-[2, 5]'')"
    by (simp add: pattern_defs)
  moreover have "test False PLUGIN_NAME_PATTERN (js ''boolean-union'')"
    by (simp add: pattern_defs)
  moreover have "\<not> test False PLUGIN_NAME_PATTERN (js ''row-3'')"
    by (simp add: pattern_defs)
  ultimately show ?thesis
    unfolding classifier_generic [OF assms(1-4)]
    using assms(5) test_PLUGIN_NAME_PATTERN [of "node_name n"] by auto
qed

theorem plugin_name_generated_iff_witness:
  "isValidFigmaNodeType (node_type row3) \<and> node_type row3 \<noteq> js ''TEXT''
   \<and> node_type row3 \<noteq> js ''COMPONENT'' \<and> node_type row3 \<noteq> js ''COMPONENT_SET''
   \<and> \<not> isFigmaGeneratedName (node_name row3)
   \<and> isFigmaOrPluginGeneratedName row3 \<and> pluginName (node_name row3)"
proof -
  have h1: "isValidFigmaNodeType (node_type row3)"
    by (simp add: row3_def isValidFigmaNodeType_def ALL_FIGMA_NODE_TYPES_def js_def)
  have h2: "node_type row3 \<noteq> js ''TEXT''" by (simp add: row3_def js_def)
  have h3: "node_type row3 \<noteq> js ''COMPONENT''" by (simp add: row3_def js_def)
  have h4: "node_type row3 \<noteq> js ''COMPONENT_SET''" by (simp add: row3_def js_def)
  have h5: "\<not> isFigmaGeneratedName (node_name row3)" by (simp add: row3_def pattern_defs)
  have nm: "node_name row3 = js ''row-[3]''" by (simp add: row3_def)
  note t = plugin_name_generated_iff [OF h1 h2 h3 h4 h5]
  have a: "isFigmaOrPluginGeneratedName row3" using t nm by blast
  have "pluginName (node_name row3)" using t a by blast
  with a have "isFigmaOrPluginGeneratedName row3 \<and> pluginName (node_name row3)" ..
  with h1 h2 h3 h4 h5 show ?thesis by simp
qed

lemma digits_set: "digits a \<Longrightarrow> c \<in> set a \<Longrightarrow> 48 \<le> c \<and> c \<le> 57"
  by (simp add: digits_def isDigit_def)

lemma not_spec_pluginName: "\<not> spec_pluginName (js ''col-[2,5]'')"
proof
  assume "spec_pluginName (js ''col-[2,5]'')"
  then obtain t where t: "t \<in> set PLUGIN_GENERATED_NAMES"
    and c: "js ''col-[2,5]'' = t \<or> (\<exists>s. spec_indexSuffix s \<and> js ''col-[2,5]'' = t @ s)"
    unfolding spec_pluginName_def by blast
  have t44: "44 \<notin> set t"
    using t by (auto simp: PLUGIN_GENERATED_NAMES_def js_def)
  have n44: "44 \<in> set (js ''col-[2,5]'')"
    by (simp add: js_def)
  have nws: "\<forall>c \<in> set (js ''col-[2,5]''). \<not> isWhiteSpace c"
    by (simp add: js_def isWhiteSpace_def)
  from c show False
  proof
    assume "js ''col-[2,5]'' = t"
    with t44 n44 show False by simp
  next
    assume "\<exists>s. spec_indexSuffix s \<and> js ''col-[2,5]'' = t @ s"
    then obtain s where s: "spec_indexSuffix s" and e: "js ''col-[2,5]'' = t @ s" by blast
    from s consider a where "digits a" "s = js ''-['' @ a @ js '']''"
      | a sp b where "isWhiteSpace sp" "s = js ''-['' @ a @ js '','' @ [sp] @ b @ js '']''"
      unfolding spec_indexSuffix_def by blast
    then show False
    proof cases
      case 1
      then have "44 \<notin> set s" using digits_set [of a 44] by (auto simp: js_def)
      with t44 have "44 \<notin> set (t @ s)" by simp
      with e n44 show False by simp
    next
      case 2
      then have "sp \<in> set (t @ s)" by simp
      with e nws 2(1) show False by metis
    qed
  qed
qed

text \<open>
  The name \<open>col-[2,5]\<close>, with no space after the comma, is classified as generated on
  a FRAME node although it fails the generic check and is not a token followed by
  \<open>-[N]\<close> or \<open>-[N, N]\<close>.
\<close>

theorem plugin_suffix_without_space_generated:
  "isValidFigmaNodeType (node_type col25) \<and> node_type col25 \<noteq> js ''TEXT''
   \<and> node_type col25 \<noteq> js ''COMPONENT'' \<and> node_type col25 \<noteq> js ''COMPONENT_SET''
   \<and> \<not> isFigmaGeneratedName (node_name col25)
   \<and> isFigmaOrPluginGeneratedName col25
   \<and> \<not> spec_pluginName (node_name col25)"
  using not_spec_pluginName by (simp add: col25_def classifier_defs)


lemma spec_indexSuffix_indexSuffix: "spec_indexSuffix s \<Longrightarrow> indexSuffix s"
proof -
  assume "spec_indexSuffix s"
  then consider a where "digits a" "s = js ''-['' @ a @ js '']''"
    | a sp b where "digits a" "isWhiteSpace sp" "digits b"
        "s = js ''-['' @ a @ js '','' @ [sp] @ b @ js '']''"
    unfolding spec_indexSuffix_def by blast
  then show ?thesis
  proof cases
    case 1
    then show ?thesis unfolding indexSuffix_def by blast
  next
    case 2
    from 2(2) have "\<forall>c \<in> set [sp]. isWhiteSpace c" by simp
    with 2(1,3,4) show ?thesis unfolding indexSuffix_def by blast
  qed
qed

lemma indexSuffix_bracket:
  assumes "indexSuffix s"
  shows "\<exists>r. s = [45, 91] @ r \<and> r \<noteq> [] \<and> last r = 93"
proof -
  from assms consider a where "s = js ''-['' @ a @ js '']''"
    | a ws b where "s = js ''-['' @ a @ js '','' @ ws @ b @ js '']''"
    unfolding indexSuffix_def by blast
  then show ?thesis
  proof cases
    case 1
    then have "s = [45, 91] @ (a @ [93])" by (simp add: js_def)
    then show ?thesis by (metis last_snoc snoc_eq_iff_butlast)
  next
    case 2
    then have "s = [45, 91] @ ((a @ js '','' @ ws @ b) @ [93])" by (simp add: js_def)
    then show ?thesis by (metis last_snoc snoc_eq_iff_butlast)
  qed
qed

lemma toLowerAscii_bracket: "toLowerAscii c = 91 \<longleftrightarrow> c = 91"
  by (auto simp: toLowerAscii_def)

lemma equalsIgnoreCase_bracket:
  assumes "equalsIgnoreCase a b"
  shows "91 \<in> set a \<longleftrightarrow> 91 \<in> set b"
proof -
  have "91 \<in> set x \<longleftrightarrow> 91 \<in> set (map toLowerAscii x)" for x
    by (auto simp: toLowerAscii_bracket image_iff)
  then have "91 \<in> set a \<longleftrightarrow> 91 \<in> set (map toLowerAscii a)"
    and "91 \<in> set b \<longleftrightarrow> 91 \<in> set (map toLowerAscii b)" by blast+
  with assms show ?thesis unfolding equalsIgnoreCase_def by simp
qed

lemma tokens_no_bracket: "t \<in> set PLUGIN_GENERATED_NAMES \<Longrightarrow> 91 \<notin> set t"
  by (auto simp: PLUGIN_GENERATED_NAMES_def js_def)

lemma tokens_lower: "t \<in> set PLUGIN_GENERATED_NAMES \<Longrightarrow> map toLowerAscii t = t"
  by (auto simp: PLUGIN_GENERATED_NAMES_def js_def toLowerAscii_def)

lemma literals_no_bracket:
  "l \<in> set (ALL_FIGMA_NODE_TYPES @ BOOLEAN_OPERATIONS) \<Longrightarrow> 91 \<notin> set l"
  by (auto simp: ALL_FIGMA_NODE_TYPES_def BOOLEAN_OPERATIONS_def js_def)

lemma wordSpaceNumber_last:
  assumes "wordSpaceNumber name"
  shows "name \<noteq> [] \<and> isDigit (last name)"
proof -
  from assms obtain w s d where "name = w @ [s] @ d" "digits d"
    unfolding wordSpaceNumber_def by blast
  then show ?thesis by (simp add: digits_def)
qed

lemma first_split_unique:
  "a @ x # b = a' @ x # b' \<Longrightarrow> x \<notin> set a \<Longrightarrow> x \<notin> set a' \<Longrightarrow> a = a'"
proof (induction a arbitrary: a')
  case Nil
  then show ?case by (cases a') auto
next
  case (Cons y a)
  then show ?case by (cases a') auto
qed

lemma variant_suffix_unmatched:
  assumes t: "t \<in> set PLUGIN_GENERATED_NAMES"
    and v: "equalsIgnoreCase v t" "v \<noteq> t"
    and s: "indexSuffix s"
  shows "\<not> pluginName (v @ s)" "\<not> wordSpaceNumber (v @ s)"
    "\<not> (\<exists>l \<in> set (ALL_FIGMA_NODE_TYPES @ BOOLEAN_OPERATIONS). equalsIgnoreCase (v @ s) l)"
    "v @ s \<noteq> js ''text''"
proof -
  from s obtain r where r: "s = [45, 91] @ r" "r \<noteq> []" "last r = 93"
    using indexSuffix_bracket by blast
  have v91: "91 \<notin> set v"
    using equalsIgnoreCase_bracket [OF v(1)] tokens_no_bracket [OF t] by simp
  have in91: "91 \<in> set (v @ s)" using r(1) by simp
  show "\<not> wordSpaceNumber (v @ s)"
  proof
    assume "wordSpaceNumber (v @ s)"
    then have "isDigit (last (v @ s))" using wordSpaceNumber_last by blast
    moreover have "last (v @ s) = 93" using r by simp
    ultimately show False by (simp add: isDigit_def)
  qed
  show "\<not> (\<exists>l \<in> set (ALL_FIGMA_NODE_TYPES @ BOOLEAN_OPERATIONS). equalsIgnoreCase (v @ s) l)"
    using equalsIgnoreCase_bracket in91 literals_no_bracket by blast
  show "v @ s \<noteq> js ''text''"
  proof
    assume "v @ s = js ''text''"
    with in91 have "91 \<in> set (js ''text'')" by simp
    then show False by (simp add: js_def)
  qed
  show "\<not> pluginName (v @ s)"
  proof
    assume "pluginName (v @ s)"
    then obtain t' where t': "t' \<in> set PLUGIN_GENERATED_NAMES"
      and c: "v @ s = t' \<or> (\<exists>s'. indexSuffix s' \<and> v @ s = t' @ s')"
      unfolding pluginName_def by blast
    from c show False
    proof
      assume "v @ s = t'"
      with in91 tokens_no_bracket [OF t'] show False by simp
    next
      assume "\<exists>s'. indexSuffix s' \<and> v @ s = t' @ s'"
      then obtain s' r' where e: "v @ s = t' @ s'" and r': "s' = [45, 91] @ r'"
        using indexSuffix_bracket by blast
      from e r(1) r' have eq: "(v @ [45]) @ 91 # r = (t' @ [45]) @ 91 # r'" by simp
      have n1: "91 \<notin> set (v @ [45])" using v91 by simp
      have n2: "91 \<notin> set (t' @ [45])" using tokens_no_bracket [OF t'] by simp
      have "v @ [45] = t' @ [45]"
        using eq n1 n2 by (rule first_split_unique)
      then have "v = t'" by simp
      with t' have "map toLowerAscii v = v" using tokens_lower by blast
      moreover have "map toLowerAscii t = t" using tokens_lower [OF t] .
      ultimately show False using v by (simp add: equalsIgnoreCase_def)
    qed
  qed
qed

text \<open>
  Claim C10, as amended. Plugin-name matching is case-sensitive: for a plugin token, a
  variant of it that differs in the case of some letter, followed by an index suffix
  (as \<open>Row-[3]\<close>), matches neither the plugin pattern nor the generic host-name check,
  and every node with such a name, other than a TEXT node whose flag \<open>autoRename\<close> is
  set, is classified as not generated. The suffix may have any white space after the
  comma, which covers the suffixes \<open>-[N]\<close> and \<open>-[N, N]\<close>.
\<close>

theorem plugin_token_case_variant_not_generated:
  assumes "t \<in> set PLUGIN_GENERATED_NAMES"
    and "equalsIgnoreCase v t" and "v \<noteq> t"
    and "indexSuffix s"
    and "node_name n = v @ s"
    and "\<not> (node_type n = js ''TEXT'' \<and> node_autoRename n)"
  shows "\<not> isFigmaOrPluginGeneratedName n
       \<and> \<not> test False PLUGIN_NAME_PATTERN (node_name n)
       \<and> \<not> isFigmaGeneratedName (node_name n)"
proof -
  note u = variant_suffix_unmatched [OF assms(1-4)]
  have p: "\<not> test False PLUGIN_NAME_PATTERN (node_name n)"
    using u(1) assms(5) by (simp add: test_PLUGIN_NAME_PATTERN)
  have w: "\<not> test False figmaNameWithNumberRegex (node_name n)"
    using u(2) assms(5) by (simp add: test_figmaNameWithNumberRegex)
  have g: "\<not> isFigmaGeneratedName (node_name n)"
    using u(2,3) assms(5) by (simp add: isFigmaGeneratedName_iff del: set_append)
  have "\<not> isFigmaOrPluginGeneratedName n"
    using p w g u(4) assms(5,6) by (auto simp: isFigmaOrPluginGeneratedName_def Let_def)
  with p g show ?thesis by simp
qed

lemma spec_indexSuffix_3: "spec_indexSuffix (js ''-[3]'')"
proof -
  have "digits (js ''3'')" by (simp add: digits_def js_def isDigit_def)
  moreover have "js ''-[3]'' = js ''-['' @ js ''3'' @ js '']''" by (simp add: js_def)
  ultimately show ?thesis unfolding spec_indexSuffix_def by blast
qed

text \<open>
  A TEXT node with \<open>autoRename\<close> set is classified as generated whatever its name is,
  also when the name is \<open>Row-[3]\<close>.
\<close>

theorem text_autoRename_case_variant_generated:
  "js ''row'' \<in> set PLUGIN_GENERATED_NAMES \<and> equalsIgnoreCase (js ''Row'') (js ''row'')
   \<and> js ''Row'' \<noteq> js ''row'' \<and> spec_indexSuffix (js ''-[3]'')
   \<and> node_name textRow3 = js ''Row'' @ js ''-[3]''
   \<and> isFigmaOrPluginGeneratedName textRow3"
  using spec_indexSuffix_3
  by (simp add: textRow3_def classifier_defs equalsIgnoreCase_def toLowerAscii_def)

theorem plugin_token_case_variant_not_generated_witness:
  "js ''row'' \<in> set PLUGIN_GENERATED_NAMES \<and> equalsIgnoreCase (js ''Row'') (js ''row'')
   \<and> js ''Row'' \<noteq> js ''row'' \<and> indexSuffix (js ''-[3]'')
   \<and> node_name frameRow3 = js ''Row'' @ js ''-[3]''
   \<and> \<not> (node_type frameRow3 = js ''TEXT'' \<and> node_autoRename frameRow3)
   \<and> \<not> isFigmaOrPluginGeneratedName frameRow3
   \<and> \<not> test False PLUGIN_NAME_PATTERN (node_name frameRow3)
   \<and> \<not> isFigmaGeneratedName (node_name frameRow3)"
proof -
  have h1: "js ''row'' \<in> set PLUGIN_GENERATED_NAMES"
    by (simp add: PLUGIN_GENERATED_NAMES_def js_def)
  have h2: "equalsIgnoreCase (js ''Row'') (js ''row'')"
    by (simp add: equalsIgnoreCase_def toLowerAscii_def js_def)
  have h3: "js ''Row'' \<noteq> js ''row''" by (simp add: js_def)
  have h4: "indexSuffix (js ''-[3]'')"
    using spec_indexSuffix_3 by (rule spec_indexSuffix_indexSuffix)
  have h5: "node_name frameRow3 = js ''Row'' @ js ''-[3]''"
    by (simp add: frameRow3_def js_def)
  have h6: "\<not> (node_type frameRow3 = js ''TEXT'' \<and> node_autoRename frameRow3)"
    by (simp add: frameRow3_def)
  show ?thesis
    using plugin_token_case_variant_not_generated [OF h1 h2 h3 h4 h5 h6] h1 h2 h3 h4 h5 h6 by simp
qed

section \<open>The orchestrator\<close>

lemma setName_sel [simp]:
  "node_id (setName n v) = node_id n" "node_name (setName n v) = v"
  "node_type (setName n v) = node_type n" "node_locked (setName n v) = node_locked n"
  "node_visible (setName n v) = node_visible n"
  "node_autoRename (setName n v) = node_autoRename n"
  "node_children (setName n v) = node_children n"
  by (cases n; simp)+

lemma setChildren_sel [simp]:
  "node_id (setChildren n cs) = node_id n" "node_name (setChildren n cs) = node_name n"
  "node_type (setChildren n cs) = node_type n" "node_locked (setChildren n cs) = node_locked n"
  "node_visible (setChildren n cs) = node_visible n"
  "node_autoRename (setChildren n cs) = node_autoRename n"
  "node_children (setChildren n cs) = Some cs"
  by (cases n; simp)+


lemma renameLayer_result:
  "renameLayer gen n options = (False, n)
   \<or> (\<exists>v. gen n options = Inr v \<and> v \<noteq> node_name n
          \<and> renameLayer gen n options = (True, setName n v))"
  by (auto simp: renameLayer_def renameLayer_try_def split: sum.splits)

lemma renameNodeAndChildren_unfold:
  "renameNodeAndChildren gen n options =
     (if node_type n = js ''INSTANCE'' \<and> \<not> opt_instance options then (False, n)
      else case node_children n of
             None \<Rightarrow> renameLayer gen n options
           | Some cs \<Rightarrow>
               (fst (renameLayer gen n options)
                  \<or> list_ex fst (map (\<lambda>child. renameNodeAndChildren gen child options) cs),
                setChildren (snd (renameLayer gen n options))
                  (map snd (map (\<lambda>child. renameNodeAndChildren gen child options) cs))))"
  by (cases n) (auto simp: Let_def split: option.splits)

lemma processBatchLoop_eq:
  "processBatchLoop gen options i hasRenamed nodes =
     (hasRenamed \<or> list_ex fst (map (\<lambda>node. renameNodeAndChildren gen node options) (drop i nodes)),
      take i nodes @ map snd (map (\<lambda>node. renameNodeAndChildren gen node options) (drop i nodes)))"
proof (induction gen options i hasRenamed nodes rule: processBatchLoop.induct)
  case (1 gen options i hasRenamed nodes)
  let ?f = "\<lambda>node. renameNodeAndChildren gen node options"
  show ?case
  proof (cases "i < length nodes")
    case False
    then show ?thesis by (subst processBatchLoop.simps) simp
  next
    case True
    let ?batch = "take batchSize (drop i nodes)"
    let ?nodes' = "take i nodes @ map snd (map ?f ?batch) @ drop (i + batchSize) nodes"
    have len: "length (take i nodes @ map snd (map ?f ?batch)) = min (length nodes) (i + batchSize)"
      using True by auto
    have d: "drop (i + batchSize) ?nodes' = drop (i + batchSize) nodes"
      using True by (auto simp: min_def)
    have t: "take (i + batchSize) ?nodes' = take i nodes @ map snd (map ?f ?batch)"
      using True by (auto simp: min_def)
    have split: "drop i nodes = ?batch @ drop (i + batchSize) nodes"
      by (metis add.commute append_take_drop_id drop_drop)
    have "processBatchLoop gen options i hasRenamed nodes =
        processBatchLoop gen options (i + batchSize) (hasRenamed \<or> list_ex fst (map ?f ?batch)) ?nodes'"
      using True by (subst processBatchLoop.simps) simp
    also have "\<dots> = ((hasRenamed \<or> list_ex fst (map ?f ?batch))
                        \<or> list_ex fst (map ?f (drop (i + batchSize) nodes)),
                      (take i nodes @ map snd (map ?f ?batch))
                        @ map snd (map ?f (drop (i + batchSize) nodes)))"
      using "1.IH" [OF True] unfolding d t by simp
    also have "\<dots> = (hasRenamed \<or> list_ex fst (map ?f (drop i nodes)),
                      take i nodes @ map snd (map ?f (drop i nodes)))"
      by (subst (3 4) split) (auto simp: list_ex_iff)
    finally show ?thesis .
  qed
qed

lemma renameLayersInSelection_eq:
  "renameLayersInSelection gen selection options =
     (list_ex fst (map (\<lambda>node. renameNodeAndChildren gen node options) selection),
      map snd (map (\<lambda>node. renameNodeAndChildren gen node options) selection))"
  by (simp add: renameLayersInSelection_def processBatchNodes_def processBatchLoop_eq)


lemma map_fixed: "map h cs = cs \<longleftrightarrow> (\<forall>c \<in> set cs. h c = c)"
  by (induction cs) auto

lemma setChildren_same:
  "node_children n = Some cs \<Longrightarrow> setChildren n cs' = n \<longleftrightarrow> cs' = cs"
  by (cases n) auto

















lemmas run_defs =
  renameLayersInSelection_eq renameLayer_def renameLayer_try_def classifier_defs
  defaultOptions_def

lemma valid_INSTANCE: "isValidFigmaNodeType (js ''INSTANCE'')"
  by (simp add: isValidFigmaNodeType_def ALL_FIGMA_NODE_TYPES_def js_def)

text \<open>
  Claim C5. For an INSTANCE node, when the option \<open>instance\<close> is false, the recursive
  rename returns false and leaves the node and its whole subtree as they are, whatever
  the names of the descendants.
\<close>

theorem instance_subtree_skipped:
  assumes "node_type n = js ''INSTANCE''" and "\<not> opt_instance options"
  shows "renameNodeAndChildren gen n options = (False, n)
       \<and> renameLayersInSelection gen [n] options = (False, [n])"
  using assms by (simp add: renameLayersInSelection_eq renameNodeAndChildren_unfold [of gen n])

theorem instance_subtree_skipped_witness:
  "node_type instanceRoot = js ''INSTANCE'' \<and> \<not> opt_instance defaultOptions
   \<and> node_children instanceRoot = Some [rect1] \<and> isFigmaOrPluginGeneratedName rect1
   \<and> renameNodeAndChildren (fixedName (js ''layer'')) instanceRoot defaultOptions
       = (False, instanceRoot)
   \<and> renameLayersInSelection (fixedName (js ''layer'')) [instanceRoot] defaultOptions
       = (False, [instanceRoot])"
proof -
  have h1: "node_type instanceRoot = js ''INSTANCE''" by (simp add: instanceRoot_def)
  have h2: "\<not> opt_instance defaultOptions" by (simp add: defaultOptions_def)
  have "isFigmaOrPluginGeneratedName rect1" by (simp add: rect1_def classifier_defs)
  then show ?thesis
    using instance_subtree_skipped [OF h1 h2, of "fixedName (js ''layer'')"] h1 h2 by (simp add: instanceRoot_def)
qed

text \<open>
  A selection of one locked frame with an unlocked child named \<open>Rectangle 1\<close>, with
  the option \<open>locked\<close> false: the child is renamed and the run returns true.
\<close>

theorem locked_node_child_renamed:
  "node_locked lockedFrame \<and> \<not> opt_locked defaultOptions
   \<and> fst (renameLayersInSelection (fixedName (js ''rect'')) [lockedFrame] defaultOptions) = True"
  by (simp add: lockedFrame_def rect1_def fixedName_def run_defs)

lemma renameLayer_locked:
  "node_locked n \<Longrightarrow> \<not> opt_locked options \<Longrightarrow> renameLayer gen n options = (False, n)"
  by (simp add: renameLayer_def renameLayer_try_def)

lemma renameLayer_hidden:
  "\<not> node_visible n \<Longrightarrow> \<not> opt_hidden options \<Longrightarrow> renameLayer gen n options = (False, n)"
  by (simp add: renameLayer_def renameLayer_try_def)

lemma renameNodeAndChildren_own_name:
  "renameLayer gen n options = (False, n) \<Longrightarrow>
     node_name (snd (renameNodeAndChildren gen n options)) = node_name n
     \<and> (fst (renameNodeAndChildren gen n options) \<longleftrightarrow>
          \<not> (node_type n = js ''INSTANCE'' \<and> \<not> opt_instance options)
          \<and> (\<exists>cs. node_children n = Some cs
                \<and> (\<exists>c \<in> set cs. fst (renameNodeAndChildren gen c options))))"
  by (auto simp: renameNodeAndChildren_unfold [of gen n] list_ex_iff split: option.splits)

text \<open>
  Claim C6, as amended. The rename attempt on a single node changes nothing and returns
  false when the node is locked and the option \<open>locked\<close> is false, and when the node
  is invisible and the option \<open>hidden\<close> is false. For a selection of one locked node
  with the option \<open>locked\<close> false, the name of that node is unchanged; the run returns
  false when the node has no children, and in general returns true exactly when the
  subtree is not a skipped instance and the rename of some child returns true.
\<close>

theorem locked_or_hidden_node_not_renamed:
  "(node_locked n \<and> \<not> opt_locked options \<longrightarrow> renameLayer gen n options = (False, n))
   \<and> (\<not> node_visible n \<and> \<not> opt_hidden options \<longrightarrow> renameLayer gen n options = (False, n))
   \<and> (node_locked n \<and> \<not> opt_locked options \<longrightarrow>
        map node_name (snd (renameLayersInSelection gen [n] options)) = [node_name n]
        \<and> (node_children n = None \<longrightarrow> renameLayersInSelection gen [n] options = (False, [n]))
        \<and> (fst (renameLayersInSelection gen [n] options) \<longleftrightarrow>
              \<not> (node_type n = js ''INSTANCE'' \<and> \<not> opt_instance options)
              \<and> (\<exists>cs. node_children n = Some cs
                    \<and> (\<exists>c \<in> set cs. fst (renameNodeAndChildren gen c options)))))"
proof -
  have "map node_name (snd (renameLayersInSelection gen [n] options)) = [node_name n]
        \<and> (node_children n = None \<longrightarrow> renameLayersInSelection gen [n] options = (False, [n]))
        \<and> (fst (renameLayersInSelection gen [n] options) \<longleftrightarrow>
              \<not> (node_type n = js ''INSTANCE'' \<and> \<not> opt_instance options)
              \<and> (\<exists>cs. node_children n = Some cs
                    \<and> (\<exists>c \<in> set cs. fst (renameNodeAndChildren gen c options))))"
    if l: "node_locked n" "\<not> opt_locked options"
  proof -
    have r: "renameLayer gen n options = (False, n)" using l by (rule renameLayer_locked)
    have "node_children n = None \<Longrightarrow> renameNodeAndChildren gen n options = (False, n)"
      using r by (simp add: renameNodeAndChildren_unfold [of gen n])
    then show ?thesis
      using renameNodeAndChildren_own_name [OF r] by (simp add: renameLayersInSelection_eq)
  qed
  then show ?thesis using renameLayer_locked renameLayer_hidden by blast
qed

theorem locked_or_hidden_node_not_renamed_witness:
  "node_locked lockedLeaf \<and> \<not> opt_locked defaultOptions \<and> node_children lockedLeaf = None
   \<and> renameLayer (fixedName (js ''layer'')) lockedLeaf defaultOptions = (False, lockedLeaf)
   \<and> renameLayersInSelection (fixedName (js ''layer'')) [lockedLeaf] defaultOptions
       = (False, [lockedLeaf])
   \<and> isFigmaOrPluginGeneratedName lockedLeaf"
proof -
  have h: "node_locked lockedLeaf" "\<not> opt_locked defaultOptions" "node_children lockedLeaf = None"
    by (simp_all add: lockedLeaf_def defaultOptions_def)
  have "isFigmaOrPluginGeneratedName lockedLeaf" by (simp add: lockedLeaf_def classifier_defs)
  then show ?thesis
    using locked_or_hidden_node_not_renamed [of lockedLeaf defaultOptions "fixedName (js ''layer'')"] h by simp
qed


text \<open>
  A node of the unknown kind \<open>HOLOGRAM\<close> is renamed when the option
  \<open>renameCustomNames\<close> is true: the classifier is not consulted then.
\<close>

theorem unknown_kind_renamed_with_renameCustomNames:
  "\<not> isValidFigmaNodeType (node_type unknownNode)
   \<and> node_name unknownNode = js ''Frame 1''
   \<and> map node_name
        (snd (renameLayersInSelection (fixedName (js ''layer'')) [unknownNode]
               (defaultOptions\<lparr>renameCustomNames := True\<rparr>))) = [js ''layer'']"
  by (simp add: unknownNode_def rect1_def fixedName_def run_defs)

lemma invalid_not_INSTANCE: "\<not> isValidFigmaNodeType ty \<Longrightarrow> ty \<noteq> js ''INSTANCE''"
  using valid_INSTANCE by auto

lemma renameLayer_children: "node_children (snd (renameLayer gen n options)) = node_children n"
  using renameLayer_result [of gen n options] by auto

text \<open>
  Claim C2, as amended. For a node whose type tag is outside the 27 kinds the classifier
  answers false for every choice of options. When the option \<open>renameCustomNames\<close> is
  false the rename attempt on the node changes nothing, returns false, and the name of
  the node is the same after the recursive rename. When the option is true the classifier
  is not consulted and the node is renamed like any other node: the attempt is skipped by
  the lock and visibility gates, a failure of the strategy leaves the node as it is, and
  otherwise the proposal of the strategy is assigned when it differs from the name. The
  name after the recursive rename is the name after the attempt, and a rename of the node
  shows in the flag of the recursive rename. For every choice of options the traversal
  continues: the children of the node and the other nodes of the selection are processed
  as they are on their own.
\<close>

theorem unknown_kind_not_renamed:
  assumes "\<not> isValidFigmaNodeType (node_type n)"
  shows "\<not> isFigmaOrPluginGeneratedName n
       \<and> (\<not> renameCustomNames options \<longrightarrow>
            renameLayer gen n options = (False, n)
            \<and> node_name (snd (renameNodeAndChildren gen n options)) = node_name n)
       \<and> node_children (snd (renameNodeAndChildren gen n options)) =
            map_option (map (\<lambda>c. snd (renameNodeAndChildren gen c options))) (node_children n)
       \<and> snd (renameLayersInSelection gen (before @ n # rest) options) =
            map (\<lambda>m. snd (renameNodeAndChildren gen m options)) (before @ n # rest)
       \<and> (renameCustomNames options \<longrightarrow>
            renameLayer gen n options =
              (if node_locked n \<and> \<not> opt_locked options then (False, n)
               else if \<not> node_visible n \<and> \<not> opt_hidden options then (False, n)
               else case gen n options of
                      Inl e \<Rightarrow> (False, n)
                    | Inr newName \<Rightarrow>
                        if node_name n \<noteq> newName then (True, setName n newName)
                        else (False, n)))
       \<and> node_name (snd (renameNodeAndChildren gen n options)) =
            node_name (snd (renameLayer gen n options))
       \<and> (fst (renameLayer gen n options) \<longrightarrow> fst (renameNodeAndChildren gen n options))"
proof -
  have c: "\<not> isFigmaOrPluginGeneratedName n"
    using assms by (simp add: isFigmaOrPluginGeneratedName_def)
  have i: "node_type n \<noteq> js ''INSTANCE''"
    using assms by (rule invalid_not_INSTANCE)
  have r: "renameLayer gen n options = (False, n)" if "\<not> renameCustomNames options"
    using that c by (simp add: renameLayer_def renameLayer_try_def)
  have k: "node_children (snd (renameNodeAndChildren gen n options)) =
      map_option (map (\<lambda>c. snd (renameNodeAndChildren gen c options))) (node_children n)"
    using i renameLayer_children [of gen n options]
    by (auto simp: renameNodeAndChildren_unfold [of gen n] split: option.splits)
  have custom: "renameLayer gen n options =
              (if node_locked n \<and> \<not> opt_locked options then (False, n)
               else if \<not> node_visible n \<and> \<not> opt_hidden options then (False, n)
               else case gen n options of
                      Inl e \<Rightarrow> (False, n)
                    | Inr newName \<Rightarrow>
                        if node_name n \<noteq> newName then (True, setName n newName)
                        else (False, n))"
    if "renameCustomNames options"
    using that i by (auto simp: renameLayer_def renameLayer_try_def split: sum.splits)
  have own: "node_name (snd (renameNodeAndChildren gen n options)) =
            node_name (snd (renameLayer gen n options))"
    and flag: "fst (renameLayer gen n options) \<longrightarrow> fst (renameNodeAndChildren gen n options)"
    using i by (auto simp: renameNodeAndChildren_unfold [of gen n] split: option.splits)
  show ?thesis
    using c r k custom own flag renameNodeAndChildren_own_name [of gen n options]
    by (simp add: renameLayersInSelection_eq)
qed

theorem unknown_kind_not_renamed_witness:
  "\<not> isValidFigmaNodeType (node_type unknownNode)
   \<and> \<not> renameCustomNames defaultOptions
   \<and> \<not> isFigmaOrPluginGeneratedName unknownNode
   \<and> renameLayer (fixedName (js ''layer'')) unknownNode defaultOptions = (False, unknownNode)
   \<and> renameLayersInSelection (fixedName (js ''layer'')) [unknownNode, rect1] defaultOptions
       = (True, [SceneNode (js ''3:0'') (js ''Frame 1'') (js ''HOLOGRAM'') False True False
                   (Some [SceneNode (js ''2:1'') (js ''layer'') (js ''RECTANGLE'') False True False None]),
                 SceneNode (js ''2:1'') (js ''layer'') (js ''RECTANGLE'') False True False None])
   \<and> renameCustomNames (defaultOptions\<lparr>renameCustomNames := True\<rparr>)
   \<and> renameLayer (fixedName (js ''layer'')) unknownNode
        (defaultOptions\<lparr>renameCustomNames := True\<rparr>)
       = (True, setName unknownNode (js ''layer''))"
proof -
  have h: "\<not> isValidFigmaNodeType (node_type unknownNode)"
    by (simp add: unknownNode_def classifier_defs)
  have o: "\<not> renameCustomNames defaultOptions" by (simp add: defaultOptions_def)
  have o': "renameCustomNames (defaultOptions\<lparr>renameCustomNames := True\<rparr>)" by simp
  have e: "renameLayersInSelection (fixedName (js ''layer'')) [unknownNode, rect1] defaultOptions
       = (True, [SceneNode (js ''3:0'') (js ''Frame 1'') (js ''HOLOGRAM'') False True False
                   (Some [SceneNode (js ''2:1'') (js ''layer'') (js ''RECTANGLE'') False True False None]),
                 SceneNode (js ''2:1'') (js ''layer'') (js ''RECTANGLE'') False True False None])"
    by (simp add: unknownNode_def rect1_def fixedName_def run_defs)
  have f: "\<not> node_locked unknownNode" "node_visible unknownNode"
    "node_name unknownNode \<noteq> js ''layer''"
    by (simp_all add: unknownNode_def js_def)
  have "renameLayer (fixedName (js ''layer'')) unknownNode
        (defaultOptions\<lparr>renameCustomNames := True\<rparr>)
       = (True, setName unknownNode (js ''layer''))"
    using unknown_kind_not_renamed
      [OF h, of "defaultOptions\<lparr>renameCustomNames := True\<rparr>" "fixedName (js ''layer'')" "[]" "[]"]
      o' f
    by (simp add: fixedName_def)
  then show ?thesis
    using unknown_kind_not_renamed
      [OF h, of defaultOptions "fixedName (js ''layer'')" "[]" "[rect1]"] h o o' e
    by simp
qed

lemma renameLayer_thrown:
  "gen n options = Inl e \<Longrightarrow> renameLayer gen n options = (False, n)"
  using renameLayer_result [of gen n options] by auto

lemma renameNodeAndChildren_all_thrown:
  assumes "\<forall>m. \<exists>e. gen m options = Inl e"
  shows "renameNodeAndChildren gen n options = (False, n)"
proof (induction n)
  case (SceneNode i nm ty lk vs ar ch)
  define n where "n = SceneNode i nm ty lk vs ar ch"
  let ?f = "\<lambda>child. renameNodeAndChildren gen child options"
  have r: "renameLayer gen n options = (False, n)"
    using assms renameLayer_thrown by blast
  have "?f n = (False, n)"
  proof (cases ch)
    case None
    then show ?thesis using r by (simp add: renameNodeAndChildren_unfold [of gen n] n_def)
  next
    case (Some cs)
    then have ch: "node_children n = Some cs" by (simp add: n_def)
    have ih: "?f c = (False, c)" if "c \<in> set cs" for c
      using SceneNode.IH [of cs c] Some that by simp
    have "\<not> list_ex fst (map ?f cs)" "map snd (map ?f cs) = cs"
      using ih by (auto simp: list_ex_iff map_fixed)
    then show ?thesis
      using r ch setChildren_same [OF ch] by (simp add: renameNodeAndChildren_unfold [of gen n])
  qed
  then show ?case unfolding n_def .
qed

text \<open>
  Claim C4. A failure of the naming strategy on a node is caught in the rename attempt of
  that node, which returns false and leaves the node as it is. When the strategy throws on
  every call, the run over any selection returns false with the selection unchanged. The
  run is a total function of its arguments, and its result is put together node by node
  from the recursive renames of the selected nodes, so that no node stops the processing
  of another.
\<close>

theorem throwing_strategy_renames_nothing:
  "((\<exists>e. gen n options = Inl e) \<longrightarrow> renameLayer gen n options = (False, n))
   \<and> ((\<forall>m. \<exists>e. gen m options = Inl e) \<longrightarrow>
         renameLayersInSelection gen selection options = (False, selection))
   \<and> renameLayersInSelection gen selection options =
       (\<exists>m \<in> set selection. fst (renameNodeAndChildren gen m options),
        map (\<lambda>m. snd (renameNodeAndChildren gen m options)) selection)"
proof -
  have "renameLayersInSelection gen selection options = (False, selection)"
    if "\<forall>m. \<exists>e. gen m options = Inl e"
    using renameNodeAndChildren_all_thrown [where gen = gen and options = options, OF that]
    by (simp add: renameLayersInSelection_eq list_ex_iff map_fixed comp_def)
  then show ?thesis
    using renameLayer_thrown [of gen n options]
    by (auto simp: renameLayersInSelection_eq list_ex_iff)
qed

theorem throwing_strategy_renames_nothing_witness:
  "length tenNodes = 10
   \<and> (\<forall>m. \<exists>e. alwaysThrows m defaultOptions = Inl e)
   \<and> renameLayersInSelection alwaysThrows tenNodes defaultOptions = (False, tenNodes)"
proof -
  have h: "\<forall>m. \<exists>e. alwaysThrows m defaultOptions = Inl e" by (simp add: alwaysThrows_def)
  have "length tenNodes = 10" by (simp add: tenNodes_def)
  then show ?thesis
    using throwing_strategy_renames_nothing [of alwaysThrows "hd tenNodes" defaultOptions tenNodes] h by simp
qed






text \<open>
  Names read outside the subtree matter as well: a collaborator that ignores its node and
  reads the names of the roots makes the second run over two frames return true, both
  roots of the batch being asked before any name is assigned.
\<close>

lemma second_run_renames_when_strategy_reads_other_root:
  "(\<forall>w m m'. avoidTaken w m defaultOptions = avoidTaken w m' defaultOptions)
   \<and> renameLayersInSelection (observed avoidTaken (\<lambda>m. [frame1, frame2])) [frame1, frame2]
       defaultOptions
     = (True, [setName frame1 (js ''frame''), setName frame2 (js ''frame'')])
   \<and> fst (renameLayersInSelection
            (observed avoidTaken (\<lambda>m. [setName frame1 (js ''frame''), setName frame2 (js ''frame'')]))
            [setName frame1 (js ''frame''), setName frame2 (js ''frame'')] defaultOptions)"
  by (simp add: frame1_def frame2_def observed_def avoidTaken_def run_defs)

end
